theory Spec2Isabelle
  imports Main "HOL-Library.Word"
begin

section \<open>The C++17 feature demonstrations of main.cpp\<close>

text \<open>
  The program is one file of independent routines, each showing one C++17 feature and
  printing its result. Every routine is embedded as a HOL function of the same name.

  \<^item> A C++ \<^verbatim>\<open>int\<close> is a 32-bit two's complement word. Signed overflow, which the
    language leaves undefined, is the wrap-around of the machine: \<open>+\<close> and \<open>*\<close> on
    \<open>32 word\<close>. The signed reading of a word is \<open>sint\<close>.
  \<^item> A \<^verbatim>\<open>vector<int>\<close> is a list; an iterator into it is an index, and \<^verbatim>\<open>end()\<close> is
    the length.
  \<^item> What a routine writes to \<^verbatim>\<open>cout\<close> is the string it returns.
  \<^item> Undefined behaviour and exceptions are values of the type \<open>failure\<close>.
\<close>

subsection \<open>Integers and output\<close>

type_synonym int32 = "32 word"

datatype failure =
    ModuloByZero      \<comment> \<open>\<^verbatim>\<open>rand() % 0\<close>: undefined behaviour\<close>
  | LengthError       \<comment> \<open>\<^verbatim>\<open>vector<int>(n)\<close> with \<open>n\<close> beyond \<^verbatim>\<open>max_size()\<close>: \<^verbatim>\<open>std::length_error\<close>\<close>
  | RemOverflow       \<comment> \<open>\<^verbatim>\<open>INT_MIN % -1\<close>: undefined behaviour\<close>
  | DerefEnd          \<comment> \<open>dereferencing \<^verbatim>\<open>end()\<close>: undefined behaviour\<close>

definition endl :: string where
  "endl = [CHR 0x0A]"

definition digit_char :: "nat \<Rightarrow> char" where
  "digit_char d = ''0123456789'' ! d"

text \<open>The decimal digits of a natural number, most significant first.\<close>

function show_nat :: "nat \<Rightarrow> string" where
  "show_nat n = (if n < 10 then [digit_char n] else show_nat (n div 10) @ [digit_char (n mod 10)])"
  by pat_completeness auto
termination
  by (relation "measure id") auto

declare show_nat.simps [simp del]

text \<open>\<^verbatim>\<open>cout << i\<close> for a signed integer.\<close>

definition show_int :: "int \<Rightarrow> string" where
  "show_int i = (if i < 0 then CHR ''-'' # show_nat (nat (- i)) else show_nat (nat i))"

definition show_int32 :: "int32 \<Rightarrow> string" where
  "show_int32 x = show_int (sint x)"

subsection \<open>Fold expression: \<^verbatim>\<open>sum_numbers\<close>\<close>

text \<open>
  \<^verbatim>\<open>template <typename ... T> auto sum_numbers(const T& ... values) { return (values + ...); }\<close>

  \<^verbatim>\<open>(values + ...)\<close> is a unary right fold: for the pack \<open>v1, ..., vn\<close> it is
  \<open>v1 + (v2 + (... + vn))\<close>. A unary fold over \<open>+\<close> has no value for the empty pack, and a
  call with no argument does not compile, so the pack is a first value and the list of
  the others.
\<close>

fun sum_numbers :: "int32 \<Rightarrow> int32 list \<Rightarrow> int32" where
  "sum_numbers v [] = v"
| "sum_numbers v (w # ws) = v + sum_numbers w ws"

subsection \<open>The sequence generator: \<^verbatim>\<open>generate_vector\<close>\<close>

text \<open>
  \<^verbatim>\<open>rand()\<close> is the C library's: a function of a hidden state, taken as the parameter
  \<open>rnd\<close>, which maps the state to the value returned and the next state. The library
  promises a value between 0 and \<^verbatim>\<open>RAND_MAX\<close>, so a non-negative \<^verbatim>\<open>int\<close>.
\<close>

type_synonym 's rand_fn = "'s \<Rightarrow> int32 \<times> 's"

definition rand_nonneg :: "'s rand_fn \<Rightarrow> bool" where
  "rand_nonneg rnd = (\<forall>s. 0 \<le> sint (fst (rnd s)))"

text \<open>
  \<^verbatim>\<open>a % b\<close> on \<^verbatim>\<open>int\<close>: the remainder of the division that truncates towards zero, with
  the sign of \<open>a\<close>. The machine traps when \<open>b\<close> is zero, and when the quotient does not
  fit (\<^verbatim>\<open>INT_MIN % -1\<close>).
\<close>

definition trunc_rem :: "int \<Rightarrow> int \<Rightarrow> int" where
  "trunc_rem a b = sgn a * (\<bar>a\<bar> mod \<bar>b\<bar>)"

definition int_rem :: "int32 \<Rightarrow> int32 \<Rightarrow> failure + int32" where
  "int_rem a b =
     (if b = 0 then Inl ModuloByZero
      else if sint a = - (2 ^ 31) \<and> sint b = - 1 then Inl RemOverflow
      else Inr (word_of_int (trunc_rem (sint a) (sint b))))"

text \<open>The closure \<^verbatim>\<open>[rangeVal]() { return rand() % rangeVal; }\<close>.\<close>

definition rand_mod :: "'s rand_fn \<Rightarrow> int32 \<Rightarrow> 's \<Rightarrow> failure + int32 \<times> 's" where
  "rand_mod rnd rangeVal s =
     (case rnd s of (r, s') \<Rightarrow>
        (case int_rem r rangeVal of Inl e \<Rightarrow> Inl e | Inr x \<Rightarrow> Inr (x, s')))"

text \<open>
  \<^verbatim>\<open>vector<int> vecA(sizeVal)\<close>: \<open>sizeVal\<close> zero-initialised elements. The \<^verbatim>\<open>int\<close> is
  converted to the unsigned \<^verbatim>\<open>size_t\<close>, so a negative \<open>sizeVal\<close> is a size beyond
  \<^verbatim>\<open>max_size()\<close> and the constructor throws. Memory is taken to suffice for every
  non-negative \<^verbatim>\<open>int\<close>.
\<close>

definition vector_of_size :: "int32 \<Rightarrow> failure + int32 list" where
  "vector_of_size sizeVal =
     (if sint sizeVal < 0 then Inl LengthError else Inr (replicate (nat (sint sizeVal)) 0))"

text \<open>
  \<^verbatim>\<open>std::generate(first, last, g)\<close>: \<^verbatim>\<open>for (; first != last; ++first) *first = g();\<close>
  Iterators are indices; \<open>final\<close> is the library's \<^verbatim>\<open>last\<close>.
\<close>

function generate ::
  "('s \<Rightarrow> failure + int32 \<times> 's) \<Rightarrow> nat \<Rightarrow> nat \<Rightarrow> int32 list \<Rightarrow> 's \<Rightarrow> failure + int32 list \<times> 's"
where
  "generate g first final v s =
     (if first < final then
        (case g s of
           Inl e \<Rightarrow> Inl e
         | Inr (x, s') \<Rightarrow> generate g (Suc first) final (v[first := x]) s')
      else Inr (v, s))"
  by pat_completeness auto
termination
  by (relation "measure (\<lambda>(g, first, final, v, s). final - first)") auto

declare generate.simps [simp del]

definition generate_vector ::
  "'s rand_fn \<Rightarrow> int32 \<Rightarrow> int32 \<Rightarrow> 's \<Rightarrow> failure + int32 list \<times> 's"
where
  "generate_vector rnd sizeVal rangeVal s =
     (case vector_of_size sizeVal of
        Inl e \<Rightarrow> Inl e
      | Inr vecA \<Rightarrow> generate (rand_mod rnd rangeVal) 0 (length vecA) vecA s)"

subsection \<open>Printing a vector: \<^verbatim>\<open>print_vec\<close>\<close>

text \<open>
  \<^verbatim>\<open>for_each(begin(vec), end(vec), [](auto x) {cout << x << " "; });\<close>
  The parameter \<open>shw\<close> is \<^verbatim>\<open>operator<<\<close> of the element type.
\<close>

fun print_vec :: "('a \<Rightarrow> string) \<Rightarrow> 'a list \<Rightarrow> string" where
  "print_vec shw [] = []"
| "print_vec shw (x # xs) = shw x @ '' '' @ print_vec shw xs"

subsection \<open>The maximum finder: \<^verbatim>\<open>compare_values\<close>\<close>

text \<open>
  \<^verbatim>\<open>std::max_element(first, last)\<close> with the element type's \<^verbatim>\<open>operator<\<close> as \<open>lt\<close>:
  \<^verbatim>\<open>
  if (first == last) return last;
  largest = first;
  while (++first != last) if (*largest < *first) largest = first;
  return largest;
  \<close>
\<close>

function max_element_loop :: "('a \<Rightarrow> 'a \<Rightarrow> bool) \<Rightarrow> 'a list \<Rightarrow> nat \<Rightarrow> nat \<Rightarrow> nat" where
  "max_element_loop lt v largest first =
     (if first < length v then
        max_element_loop lt v (if lt (v ! largest) (v ! first) then first else largest) (Suc first)
      else largest)"
  by pat_completeness auto
termination
  by (relation "measure (\<lambda>(lt, v, largest, first). length v - first)") auto

declare max_element_loop.simps [simp del]

definition max_element :: "('a \<Rightarrow> 'a \<Rightarrow> bool) \<Rightarrow> 'a list \<Rightarrow> nat" where
  "max_element lt v = (if v = [] then length v else max_element_loop lt v 0 1)"

text \<open>\<^verbatim>\<open>*it\<close>: undefined for the end iterator.\<close>

definition deref :: "'a list \<Rightarrow> nat \<Rightarrow> failure + 'a" where
  "deref v it = (if it < length v then Inr (v ! it) else Inl DerefEnd)"

text \<open>
  \<open>compare_values\<close> takes both vectors by reference: the result holds the two vectors
  as they are when it returns, and the text written.
\<close>

definition compare_values ::
  "('a \<Rightarrow> 'a \<Rightarrow> bool) \<Rightarrow> ('a \<Rightarrow> string) \<Rightarrow> 'a list \<Rightarrow> 'a list \<Rightarrow> failure + 'a list \<times> 'a list \<times> string"
where
  "compare_values lt shw vecA vecB =
     (let vecAIterator = max_element lt vecA;
          vecBIterator = max_element lt vecB
      in case deref vecA vecAIterator of
           Inl e \<Rightarrow> Inl e
         | Inr a \<Rightarrow>
             (case deref vecB vecBIterator of
                Inl e \<Rightarrow> Inl e
              | Inr b \<Rightarrow>
                  Inr (vecA, vecB,
                    endl @ ''Max element of Vector A: '' @ shw a @ '' at element: ''
                      @ show_int (int vecAIterator) @ endl
                    @ endl @ ''Max element of Vector B: '' @ shw b @ '' at element: ''
                      @ show_int (int vecBIterator) @ endl)))"

text \<open>\<^verbatim>\<open>operator<\<close> of \<^verbatim>\<open>int\<close> is the signed comparison.\<close>

definition int_less :: "int32 \<Rightarrow> int32 \<Rightarrow> bool" where
  "int_less a b = (sint a < sint b)"

subsection \<open>The in-place transform: \<^verbatim>\<open>generate_constexpr_lambda\<close>\<close>

text \<open>\<^verbatim>\<open>constexpr auto multiplyByFive = [](auto someVal) { return someVal * 5; };\<close>\<close>

definition multiplyByFive :: "int32 \<Rightarrow> int32" where
  "multiplyByFive someVal = someVal * 5"

text \<open>
  \<^verbatim>\<open>std::transform(first, last, d_first, op)\<close> with \<^verbatim>\<open>d_first == first\<close>, as the routine
  calls it: \<^verbatim>\<open>for (; first != last; ++first) *first = op(*first);\<close>
\<close>

function transform :: "('a \<Rightarrow> 'a) \<Rightarrow> nat \<Rightarrow> nat \<Rightarrow> 'a list \<Rightarrow> 'a list" where
  "transform op first final v =
     (if first < final then transform op (Suc first) final (v[first := op (v ! first)]) else v)"
  by pat_completeness auto
termination
  by (relation "measure (\<lambda>(op, first, final, v). final - first)") auto

declare transform.simps [simp del]

text \<open>The result is the vector after the call and the text written.\<close>

definition generate_constexpr_lambda :: "int32 list \<Rightarrow> int32 list \<times> string" where
  "generate_constexpr_lambda vec =
     (let out1 = endl @ ''Values in vector before transforming: '' @ endl @ print_vec show_int32 vec;
          vec' = transform multiplyByFive 0 (length vec) vec;
          out2 = endl @ ''Values in vector after transforming: '' @ endl @ print_vec show_int32 vec'
      in (vec', out1 @ out2 @ endl))"

subsection \<open>String views, bindings, conditionals, namespaces\<close>

definition contents :: "string list" where
  "contents = [''Some words'', ''More words'', ''Another string!'']"

text \<open>\<^verbatim>\<open>for (int i = 0; i < 3; ++i) cout << endl << contents[i];\<close>\<close>

fun stringview_loop :: "nat \<Rightarrow> nat \<Rightarrow> string" where
  "stringview_loop i 0 = []"
| "stringview_loop i (Suc n) = endl @ contents ! i @ stringview_loop (Suc i) n"

definition stringview_func :: string where
  "stringview_func = endl @ ''String View tester: '' @ endl @ stringview_loop 0 3"

record someObj =
  memA :: int32
  memB :: char

definition createObj :: someObj where
  "createObj = \<lparr>memA = 5, memB = CHR ''C''\<rparr>"

definition bindings_example_2 :: string where
  "bindings_example_2 =
     (let obj = createObj; first = memA obj; second = memB obj
      in endl @ ''Class contains: '' @ endl @ show_int32 first @ '' '' @ [second] @ endl)"

definition if_init :: string where
  "if_init =
     (let obj = createObj; first = memA obj; second = memB obj
      in endl @ (if first \<noteq> 6 then ''Value was not 6'' @ endl else ''Value was 6'' @ endl))"

text \<open>
  \<open>if_constexpr_func\<close> branches on the type of its argument at compile time: a pointer
  is given by the value it points to.
\<close>

datatype 'a ptr_or_value = Pointer 'a | Value 'a

fun if_constexpr_func :: "'a ptr_or_value \<Rightarrow> 'a \<times> string" where
  "if_constexpr_func (Pointer pointee) = (pointee, endl @ ''is a pointer!'' @ endl)"
| "if_constexpr_func (Value v) = (v, endl @ ''is not a pointer!'' @ endl)"

definition A_B_foo :: string where
  "A_B_foo = ''I am a B foo!''"

definition A_foo :: string where
  "A_foo = ''I am an A foo!''"

definition printFoos :: string where
  "printFoos = endl @ A_foo @ endl @ endl @ A_B_foo @ endl"

subsection \<open>The entry point\<close>

text \<open>
  \<open>main\<close> from the state \<open>s\<close> of the generator. \<open>generate_pointer\<close>, \<open>build_arrays\<close> and
  \<open>bindings_example\<close> write nothing. The pointer handed to \<open>if_constexpr_func\<close> points to
  an uninitialised pointer, which is returned and never used: its value is left out.
\<close>

definition main :: "'s rand_fn \<Rightarrow> 's \<Rightarrow> failure + string" where
  "main rnd s =
     (case generate_vector rnd 10 100 s of
        Inl e \<Rightarrow> Inl e
      | Inr (testVectorA, s1) \<Rightarrow>
     (case generate_vector rnd 10 100 s1 of
        Inl e \<Rightarrow> Inl e
      | Inr (testVectorB, s2) \<Rightarrow>
     (case compare_values int_less show_int32 testVectorA testVectorB of
        Inl e \<Rightarrow> Inl e
      | Inr (testVectorA1, testVectorB1, out1) \<Rightarrow>
          Inr (out1
            @ snd (generate_constexpr_lambda testVectorA1)
            @ stringview_func
            @ endl @ show_int32 (sum_numbers 4 [6, 33, 7, 3, 4, 5]) @ endl
            @ bindings_example_2
            @ if_init
            @ snd (if_constexpr_func (Pointer ()))
            @ printFoos))))"

text \<open>
  A generator to run the program on: the sample implementation of the C standard,
  \<^verbatim>\<open>next = next * 1103515245 + 12345; return (unsigned)(next / 65536) % 32768;\<close>
  with \<^verbatim>\<open>srand(seed)\<close> as \<^verbatim>\<open>next = seed\<close>, on 32 bits.
\<close>

definition sample_rand :: "32 word rand_fn" where
  "sample_rand next =
     (let next' = next * 1103515245 + 12345
      in (next' div 65536 mod 32768, next'))"

definition sample_srand :: "nat \<Rightarrow> 32 word" where
  "sample_srand seed = word_of_nat seed"

text \<open>
  The generator of the GNU C library, as \<^verbatim>\<open>rand\<close> runs it by default: a table of 31
  words, here kept as the window of the last 31 values, oldest first.
  \<^verbatim>\<open>val = *fptr += *rptr; *result = val >> 1;\<close> adds the values 31 and 3 places back.
\<close>

definition glibc_rand :: "int32 list rand_fn" where
  "glibc_rand t = (let val = t ! 0 + t ! 28 in (drop_bit 1 val, tl t @ [val]))"

text \<open>
  \<^verbatim>\<open>srand(seed)\<close> of that library: the table is filled by
  \<^verbatim>\<open>word = 16807 * word % 2147483647\<close> from the seed (1 for the seed 0), and the first
  310 values are thrown away. The table it starts with, when \<^verbatim>\<open>srand\<close> is never called,
  is that of the seed 1.
\<close>

fun glibc_fill :: "nat \<Rightarrow> int \<Rightarrow> int list" where
  "glibc_fill 0 word = []"
| "glibc_fill (Suc n) word = word # glibc_fill n (16807 * word mod 2147483647)"

fun glibc_discard :: "nat \<Rightarrow> int32 list \<Rightarrow> int32 list" where
  "glibc_discard 0 t = t"
| "glibc_discard (Suc n) t = glibc_discard n (snd (glibc_rand t))"

definition glibc_srand :: "int \<Rightarrow> int32 list" where
  "glibc_srand seed =
     (let r = map word_of_int (glibc_fill 31 (if seed = 0 then 1 else seed))
      in glibc_discard 310 (drop 3 r @ take 3 r))"

text \<open>A generator that returns the values of a list, one by one.\<close>

fun replay_rand :: "int32 list rand_fn" where
  "replay_rand [] = (0, [])"
| "replay_rand (x # xs) = (x, xs)"

text \<open>
  The first \<open>n\<close> values that \<^verbatim>\<open>rand()\<close> returns from the state \<open>s\<close>, and the state
  after them.
\<close>

fun rand_values :: "'s rand_fn \<Rightarrow> nat \<Rightarrow> 's \<Rightarrow> int32 list" where
  "rand_values rnd 0 s = []"
| "rand_values rnd (Suc n) s = fst (rnd s) # rand_values rnd n (snd (rnd s))"

fun rand_state :: "'s rand_fn \<Rightarrow> nat \<Rightarrow> 's \<Rightarrow> 's" where
  "rand_state rnd 0 s = s"
| "rand_state rnd (Suc n) s = rand_state rnd n (snd (rnd s))"

text \<open>The lines of a text: the pieces between its newlines.\<close>

fun lines_of :: "string \<Rightarrow> string list" where
  "lines_of [] = [[]]"
| "lines_of (c # cs) =
     (if c = CHR 0x0A then [] # lines_of cs
      else (case lines_of cs of [] \<Rightarrow> [[c]] | l # ls \<Rightarrow> (c # l) # ls))"

subsection \<open>What the maximum finder is to report\<close>

text \<open>
  Position \<open>p\<close> holds the maximum of \<open>v\<close>, and is its first occurrence: no element
  is greater, and every element before \<open>p\<close> is smaller. The order is that of the
  elements' \<open>key\<close> (for \<^verbatim>\<open>int\<close>, the signed value).
\<close>

definition is_first_max :: "('a \<Rightarrow> 'k::linorder) \<Rightarrow> 'a list \<Rightarrow> nat \<Rightarrow> bool" where
  "is_first_max key v p =
     (p < length v \<and> (\<forall>x \<in> set v. key x \<le> key (v ! p)) \<and> (\<forall>x \<in> set (take p v). key x < key (v ! p)))"

section \<open>Properties\<close>

subsection \<open>Fold sum\<close>

lemma foldl_add_shift: "foldl (+) (a + b) xs = a + foldl (+) b (xs :: int32 list)"
  by (induction xs arbitrary: b) (simp_all add: add.assoc)

lemma sum_numbers_foldl: "sum_numbers v vs = foldl (+) v vs"
  by (induction v vs rule: sum_numbers.induct) (simp_all add: foldl_add_shift)

lemma sum_numbers_of_int: "sum_numbers v vs = word_of_int (sint v + sum_list (map sint vs))"
  by (induction v vs rule: sum_numbers.induct) simp_all

lemma sint_of_int_in_range:
  assumes "- (2 ^ 31) \<le> k" and "k < 2 ^ 31"
  shows "sint (word_of_int k :: int32) = k"
proof -
  have "signed_take_bit 31 k = k" using assms by (rule signed_take_bit_int_eq_self)
  then show ?thesis by (simp add: sint_sbintrunc')
qed

lemma sum_numbers_sint:
  assumes "- (2 ^ 31) \<le> sint v + sum_list (map sint vs)"
    and "sint v + sum_list (map sint vs) < 2 ^ 31"
  shows "sint (sum_numbers v vs) = sint v + sum_list (map sint vs)"
  unfolding sum_numbers_of_int using assms by (rule sint_of_int_in_range)

text \<open>
  C1. For every argument list of integers, \<open>sum_numbers\<close> returns their left-to-right
  sum \<open>((v1 + v2) + ...) + vn\<close> in the arithmetic of \<^verbatim>\<open>int\<close>, although the fold expression
  associates to the right; whenever the sum of the signed values fits an \<^verbatim>\<open>int\<close>, the
  result is that sum. \<open>sum_numbers(4, 6, 33, 7, 3, 4, 5)\<close> is 62.
\<close>

theorem sum_numbers_left_to_right:
  "sum_numbers v vs = foldl (+) v vs
   \<and> (- (2 ^ 31) \<le> sint v + sum_list (map sint vs) \<and> sint v + sum_list (map sint vs) < 2 ^ 31
        \<longrightarrow> sint (sum_numbers v vs) = sint v + sum_list (map sint vs))
   \<and> sum_numbers 4 [6, 33, 7, 3, 4, 5] = 62"
proof (intro conjI impI)
  show "sum_numbers v vs = foldl (+) v vs" by (rule sum_numbers_foldl)
  show "sum_numbers 4 [6, 33, 7, 3, 4, 5] = 62" by simp
next
  assume "- (2 ^ 31) \<le> sint v + sum_list (map sint vs) \<and> sint v + sum_list (map sint vs) < 2 ^ 31"
  then show "sint (sum_numbers v vs) = sint v + sum_list (map sint vs)"
    by (intro sum_numbers_sint) simp_all
qed

theorem sum_numbers_left_to_right_witness:
  "sum_numbers 2147483647 [1, - 1] = foldl (+) 2147483647 [1, - 1]
   \<and> sint (sum_numbers 2147483647 [1, - 1]) = 2147483647"
  using sum_numbers_left_to_right [of 2147483647 "[1, - 1]"] by simp

subsection \<open>The in-place transform and the maximum finder: the loops\<close>

lemma transform_take_drop:
  "final = length v \<Longrightarrow> first \<le> final \<Longrightarrow>
   transform op first final v = take first v @ map op (drop first v)"
proof (induction op first final v rule: transform.induct)
  case (1 op first final v)
  show ?case
  proof (cases "first < final")
    case True
    let ?v' = "v[first := op (v ! first)]"
    have len: "first < length v" using True 1(2) by simp
    have "transform op first final v = transform op (Suc first) final ?v'"
      using True by (subst transform.simps) simp
    also have "\<dots> = take (Suc first) ?v' @ map op (drop (Suc first) ?v')"
      using 1 True by simp
    also have "take (Suc first) ?v' = take first v @ [op (v ! first)]"
      using len by (simp add: take_Suc_conv_app_nth)
    also have "drop (Suc first) ?v' = drop (Suc first) v"
      by simp
    finally show ?thesis
      using len by (simp add: Cons_nth_drop_Suc [symmetric])
  next
    case False
    then show ?thesis using 1(2,3) by (subst transform.simps) simp
  qed
qed

lemma transform_map: "transform op 0 (length v) v = map op v"
  by (simp add: transform_take_drop)

lemma generate_constexpr_lambda_vec:
  "fst (generate_constexpr_lambda vec) = map multiplyByFive vec"
  by (simp add: generate_constexpr_lambda_def Let_def transform_map)

lemma max_element_loop_less:
  "largest < length v \<Longrightarrow> max_element_loop lt v largest first < length v"
proof (induction lt v largest first rule: max_element_loop.induct)
  case (1 lt v largest first)
  then show ?case by (subst max_element_loop.simps) auto
qed

lemma max_element_less: "v \<noteq> [] \<Longrightarrow> max_element lt v < length v"
  by (simp add: max_element_def max_element_loop_less)

lemma max_element_loop_first_max:
  "largest < first \<Longrightarrow> first \<le> length v \<Longrightarrow> is_first_max key (take first v) largest \<Longrightarrow>
   is_first_max key v (max_element_loop (\<lambda>a b. key a < key b) v largest first)"
proof (induction "\<lambda>a b. key a < key b" v largest first rule: max_element_loop.induct)
  case (1 v largest first)
  show ?case
  proof (cases "first < length v")
    case True
    let ?l = "if key (v ! largest) < key (v ! first) then first else largest"
    have tk: "take (Suc first) v = take first v @ [v ! first]"
      using True by (simp add: take_Suc_conv_app_nth)
    have "is_first_max key (take (Suc first) v) ?l"
      using "1.prems" True unfolding is_first_max_def tk
      by (auto simp: nth_append min_def dest: in_set_takeD)
    then have "is_first_max key v (max_element_loop (\<lambda>a b. key a < key b) v ?l (Suc first))"
      using "1.hyps" [OF True] "1.prems" True by simp
    then show ?thesis using True by (subst max_element_loop.simps) simp
  next
    case False
    then have "first = length v" using "1.prems" by simp
    then show ?thesis using "1.prems" by (subst max_element_loop.simps) simp
  qed
qed

lemma max_element_first_max:
  "v \<noteq> [] \<Longrightarrow> is_first_max key v (max_element (\<lambda>a b. key a < key b) v)"
proof -
  assume ne: "v \<noteq> []"
  then have "is_first_max key (take 1 v) 0"
    by (cases v) (simp_all add: is_first_max_def)
  with ne show ?thesis
    unfolding max_element_def
    using max_element_loop_first_max [of 0 1 v key] by (cases v) simp_all
qed

lemma is_first_max_unique:
  assumes "is_first_max key v p" and "is_first_max key v q"
  shows "p = q"
proof (rule ccontr)
  assume "p \<noteq> q"
  then consider "p < q" | "q < p" by linarith
  then show False
  proof cases
    case 1
    then have "v ! p \<in> set (take q v)"
      using assms unfolding is_first_max_def by (auto simp: in_set_conv_nth intro!: exI [of _ p])
    then have "key (v ! p) < key (v ! q)" using assms(2) unfolding is_first_max_def by blast
    moreover have "key (v ! q) \<le> key (v ! p)" using assms unfolding is_first_max_def by simp
    ultimately show False by simp
  next
    case 2
    then have "v ! q \<in> set (take p v)"
      using assms unfolding is_first_max_def by (auto simp: in_set_conv_nth intro!: exI [of _ q])
    then have "key (v ! q) < key (v ! p)" using assms(1) unfolding is_first_max_def by blast
    moreover have "key (v ! p) \<le> key (v ! q)" using assms unfolding is_first_max_def by simp
    ultimately show False by simp
  qed
qed

subsection \<open>The sequence generator: the remainder and the loop\<close>

lemma int_rem_positive:
  assumes "0 < sint b"
  shows "\<exists>x. int_rem a b = Inr x"
proof -
  have "b \<noteq> 0" using assms by auto
  moreover have "sint b \<noteq> - 1" using assms by simp
  ultimately show ?thesis by (simp add: int_rem_def)
qed

lemma int_rem_range:
  assumes "0 \<le> sint a" and "0 < sint b"
  shows "\<exists>x. int_rem a b = Inr x \<and> 0 \<le> sint x \<and> sint x < sint b"
proof -
  let ?m = "sint a mod sint b"
  have nz: "b \<noteq> 0" using assms by auto
  have m1: "sint b \<noteq> - 1" using assms by simp
  have tr: "trunc_rem (sint a) (sint b) = ?m"
    using assms by (cases "sint a = 0") (simp_all add: trunc_rem_def)
  have lo: "0 \<le> ?m" and hi: "?m < sint b" using assms by simp_all
  have "sint b < 2 ^ 31" using sint_lt [of b] by simp
  with lo hi have "sint (word_of_int ?m :: int32) = ?m"
    by (simp add: sint_sbintrunc' signed_take_bit_int_eq_self)
  with nz m1 tr lo hi show ?thesis by (simp add: int_rem_def)
qed

lemma rand_mod_positive:
  "0 < sint rangeVal \<Longrightarrow> \<exists>x s'. rand_mod rnd rangeVal s = Inr (x, s')"
  using int_rem_positive [of rangeVal "fst (rnd s)"]
  by (auto simp: rand_mod_def split: prod.splits)

lemma rand_mod_range:
  "rand_nonneg rnd \<Longrightarrow> 0 < sint rangeVal \<Longrightarrow>
   \<exists>x s'. rand_mod rnd rangeVal s = Inr (x, s') \<and> 0 \<le> sint x \<and> sint x < sint rangeVal"
  using int_rem_range [of "fst (rnd s)" rangeVal]
  by (auto simp: rand_mod_def rand_nonneg_def split: prod.splits)

lemma rand_mod_failure:
  "rand_mod rnd rangeVal s = Inl e \<Longrightarrow>
   (e = ModuloByZero \<and> rangeVal = 0) \<or> (e = RemOverflow \<and> sint rangeVal = - 1)"
  by (auto simp: rand_mod_def int_rem_def split: prod.splits if_splits)

lemma rand_mod_zero: "rand_mod rnd 0 s = Inl ModuloByZero"
  by (simp add: rand_mod_def int_rem_def split: prod.splits)

lemma generate_invariant:
  assumes "final = length v" and "first \<le> final"
    and "\<And>s. \<exists>x s'. g s = Inr (x, s') \<and> P x"
    and "\<forall>x \<in> set (take first v). P x"
  shows "\<exists>v' s'. generate g first final v s = Inr (v', s') \<and> length v' = length v \<and> (\<forall>x \<in> set v'. P x)"
  using assms
proof (induction g first final v s rule: generate.induct)
  case (1 g first final v s)
  show ?case
  proof (cases "first < final")
    case True
    obtain x s' where g: "g s = Inr (x, s')" and px: "P x" using "1.prems"(3) by blast
    have len: "first < length v" using True "1.prems"(1) by simp
    have tk: "take (Suc first) (v[first := x]) = take first v @ [x]"
      using len by (simp add: take_Suc_conv_app_nth)
    have "\<exists>v' s''. generate g (Suc first) final (v[first := x]) s' = Inr (v', s'')
        \<and> length v' = length (v[first := x]) \<and> (\<forall>x \<in> set v'. P x)"
    proof (rule "1.IH" [OF True g refl])
      show "final = length (v[first := x])" using "1.prems"(1) by simp
      show "Suc first \<le> final" using True by simp
      show "\<And>s. \<exists>x s'. g s = Inr (x, s') \<and> P x" by (rule "1.prems"(3))
      show "\<forall>y \<in> set (take (Suc first) (v[first := x])). P y"
        unfolding tk using "1.prems"(4) px by simp
    qed
    then show ?thesis using True g by (subst generate.simps) simp
  next
    case False
    then have "first = length v" using "1.prems" by simp
    then show ?thesis using "1.prems" by (subst generate.simps) simp
  qed
qed

lemma generate_failure:
  assumes "generate g first final v s = Inl e"
  shows "\<exists>s'. g s' = Inl e"
  using assms
proof (induction g first final v s rule: generate.induct)
  case (1 g first final v s)
  show ?case
  proof (cases "first < final")
    case True
    show ?thesis
    proof (cases "g s")
      case (Inl e')
      then have "generate g first final v s = Inl e'"
        using True by (subst generate.simps) simp
      with "1.prems" Inl show ?thesis by auto
    next
      case (Inr r)
      obtain x s' where r: "r = (x, s')" by (cases r)
      have "generate g first final v s = generate g (Suc first) final (v[first := x]) s'"
        using True Inr r by (subst generate.simps) simp
      with "1.prems" "1.IH" [OF True] Inr r show ?thesis by simp
    qed
  next
    case False
    then have "generate g first final v s = Inr (v, s)" by (subst generate.simps) simp
    with "1.prems" show ?thesis by simp
  qed
qed

lemma generate_first_failure:
  "first < final \<Longrightarrow> g s = Inl e \<Longrightarrow> generate g first final v s = Inl e"
  by (subst generate.simps) simp

subsection \<open>The sequence generator: length, range and failures\<close>

lemma generate_vector_succeeds:
  assumes "0 \<le> sint sizeVal" and "\<And>s. \<exists>x s'. rand_mod rnd rangeVal s = Inr (x, s') \<and> P x"
  shows "\<exists>v s'. generate_vector rnd sizeVal rangeVal s = Inr (v, s')
           \<and> length v = nat (sint sizeVal) \<and> (\<forall>x \<in> set v. P x)"
proof -
  let ?v = "replicate (nat (sint sizeVal)) (0 :: int32)"
  have "\<exists>v' s'. generate (rand_mod rnd rangeVal) 0 (length ?v) ?v s = Inr (v', s')
          \<and> length v' = length ?v \<and> (\<forall>x \<in> set v'. P x)"
  proof (rule generate_invariant)
    show "\<And>s. \<exists>x s'. rand_mod rnd rangeVal s = Inr (x, s') \<and> P x" by (rule assms(2))
  qed simp_all
  then show ?thesis using assms(1) by (simp add: generate_vector_def vector_of_size_def)
qed

lemma word_below_sint:
  assumes "(x :: int32) < 32768"
  shows "0 \<le> sint x"
proof -
  have "uint x < 32768" using assms by (simp add: word_less_alt)
  also have "(32768 :: int) < 2 ^ 31" by simp
  finally have hi: "uint x < 2 ^ 31" .
  have "- (2 ^ 31) \<le> (0 :: int)" by simp
  also have "0 \<le> uint x" by simp
  finally have lo: "- (2 ^ 31) \<le> uint x" .
  have "signed_take_bit 31 (uint x) = uint x"
    using lo hi by (rule signed_take_bit_int_eq_self)
  then show ?thesis by (simp add: sint_uint)
qed

lemma sample_rand_nonneg: "rand_nonneg sample_rand"
proof -
  have "0 \<le> sint (x mod 32768)" for x :: int32
    by (rule word_below_sint) (simp add: word_mod_less_divisor)
  then show ?thesis by (simp add: rand_nonneg_def sample_rand_def Let_def)
qed

text \<open>
  C4. For a length \<open>sizeVal \<ge> 0\<close> and a bound \<open>rangeVal > 0\<close>, and a library \<^verbatim>\<open>rand\<close> that
  returns non-negative values, \<open>generate_vector\<close> returns a vector of exactly \<open>sizeVal\<close>
  elements, each at least 0 and less than \<open>rangeVal\<close>.
\<close>

theorem generate_vector_length_and_range:
  assumes "0 \<le> sint sizeVal" and "0 < sint rangeVal" and "rand_nonneg rnd"
  shows "\<exists>v s'. generate_vector rnd sizeVal rangeVal s = Inr (v, s')
           \<and> length v = nat (sint sizeVal)
           \<and> (\<forall>x \<in> set v. 0 \<le> sint x \<and> sint x < sint rangeVal)"
  using assms(1) rand_mod_range [OF assms(3) assms(2)] by (rule generate_vector_succeeds)

theorem generate_vector_length_and_range_witness:
  "0 \<le> sint (3 :: int32) \<and> 0 < sint (100 :: int32) \<and> rand_nonneg sample_rand
   \<and> (\<exists>v s'. generate_vector sample_rand 3 100 (sample_srand 1) = Inr (v, s')
         \<and> length v = 3 \<and> (\<forall>x \<in> set v. 0 \<le> sint x \<and> sint x < 100))"
  using generate_vector_length_and_range [of 3 100 sample_rand "sample_srand 1"] sample_rand_nonneg
  by simp

lemma generate_vector_modulo_by_zero:
  "generate_vector rnd sizeVal rangeVal s = Inl ModuloByZero \<longleftrightarrow> rangeVal = 0 \<and> 0 < sint sizeVal"
proof (cases "sint sizeVal < 0")
  case True
  then show ?thesis by (simp add: generate_vector_def vector_of_size_def)
next
  case False
  let ?n = "nat (sint sizeVal)"
  let ?v = "replicate ?n (0 :: int32)"
  have gv: "generate_vector rnd sizeVal rangeVal s = generate (rand_mod rnd rangeVal) 0 ?n ?v s"
    using False by (simp add: generate_vector_def vector_of_size_def)
  show ?thesis
  proof (cases "0 < sint sizeVal")
    case pos: True
    show ?thesis
    proof (cases "rangeVal = 0")
      case True
      have "generate (rand_mod rnd rangeVal) 0 ?n ?v s = Inl ModuloByZero"
        using pos True by (intro generate_first_failure) (simp_all add: rand_mod_zero)
      then show ?thesis using gv pos True by simp
    next
      case nz: False
      have "generate (rand_mod rnd rangeVal) 0 ?n ?v s \<noteq> Inl ModuloByZero"
      proof
        assume "generate (rand_mod rnd rangeVal) 0 ?n ?v s = Inl ModuloByZero"
        from generate_failure [OF this]
        obtain s' where "rand_mod rnd rangeVal s' = Inl ModuloByZero" by blast
        then show False using nz by (auto dest: rand_mod_failure)
      qed
      then show ?thesis using gv nz by simp
    qed
  next
    case zero: False
    then have "?n = 0" using False by simp
    then have "generate (rand_mod rnd rangeVal) 0 ?n ?v s = Inr (?v, s)"
      by (subst generate.simps) simp
    then show ?thesis using gv zero by simp
  qed
qed

lemma generate_vector_failure_cases:
  assumes "generate_vector rnd sizeVal rangeVal s = Inl e"
  shows "(e = LengthError \<and> sint sizeVal < 0) \<or> (e = ModuloByZero \<and> rangeVal = 0)
         \<or> (e = RemOverflow \<and> sint rangeVal = - 1)"
proof (cases "sint sizeVal < 0")
  case True
  then show ?thesis using assms by (simp add: generate_vector_def vector_of_size_def)
next
  case False
  then have "generate (rand_mod rnd rangeVal) 0 (nat (sint sizeVal))
      (replicate (nat (sint sizeVal)) 0) s = Inl e"
    using assms by (simp add: generate_vector_def vector_of_size_def)
  from generate_failure [OF this]
  obtain s' where "rand_mod rnd rangeVal s' = Inl e" by blast
  then show ?thesis by (auto dest: rand_mod_failure)
qed

text \<open>
  C5. \<open>generate_vector\<close> fails with the modulo by zero exactly when the bound is zero
  and an element is generated (\<open>sizeVal > 0\<close>). Under a bound \<open>rangeVal > 0\<close> the modulo is
  always defined, and for every length the generator is given, a non-negative integer,
  it has no error condition: it returns a vector.
\<close>

theorem generate_vector_error_conditions:
  "(generate_vector rnd sizeVal rangeVal s = Inl ModuloByZero \<longleftrightarrow> rangeVal = 0 \<and> 0 < sint sizeVal)
   \<and> (0 < sint rangeVal \<longrightarrow>
        generate_vector rnd sizeVal rangeVal s \<noteq> Inl ModuloByZero
        \<and> generate_vector rnd sizeVal rangeVal s \<noteq> Inl RemOverflow)
   \<and> (0 < sint rangeVal \<and> 0 \<le> sint sizeVal \<longrightarrow>
        (\<exists>v s'. generate_vector rnd sizeVal rangeVal s = Inr (v, s')))"
proof (intro conjI impI)
  show "generate_vector rnd sizeVal rangeVal s = Inl ModuloByZero \<longleftrightarrow> rangeVal = 0 \<and> 0 < sint sizeVal"
    by (rule generate_vector_modulo_by_zero)
next
  assume "0 < sint rangeVal"
  then show "generate_vector rnd sizeVal rangeVal s \<noteq> Inl ModuloByZero"
    using generate_vector_failure_cases [of rnd sizeVal rangeVal s ModuloByZero] by auto
next
  assume "0 < sint rangeVal"
  then show "generate_vector rnd sizeVal rangeVal s \<noteq> Inl RemOverflow"
    using generate_vector_failure_cases [of rnd sizeVal rangeVal s RemOverflow] by auto
next
  assume a: "0 < sint rangeVal \<and> 0 \<le> sint sizeVal"
  then have "\<And>s. \<exists>x s'. rand_mod rnd rangeVal s = Inr (x, s') \<and> True"
    using rand_mod_positive [of rangeVal rnd] by simp
  with a show "\<exists>v s'. generate_vector rnd sizeVal rangeVal s = Inr (v, s')"
    using generate_vector_succeeds [of sizeVal rnd rangeVal "\<lambda>_. True" s] by blast
qed

theorem generate_vector_error_conditions_witness:
  "generate_vector sample_rand 3 0 (sample_srand 1) = Inl ModuloByZero
   \<and> generate_vector sample_rand 3 100 (sample_srand 1) \<noteq> Inl ModuloByZero
   \<and> (\<exists>v s'. generate_vector sample_rand 3 100 (sample_srand 1) = Inr (v, s'))"
  using generate_vector_error_conditions [of sample_rand 3 0 "sample_srand 1"]
    generate_vector_error_conditions [of sample_rand 3 100 "sample_srand 1"]
  by simp

subsection \<open>The in-place transform\<close>

lemma sint_times_five:
  "- (2 ^ 31) \<le> 5 * sint (x :: int32) \<Longrightarrow> 5 * sint x < 2 ^ 31 \<Longrightarrow> sint (x * 5) = 5 * sint x"
  by (simp add: sint_word_ariths signed_take_bit_int_eq_self mult.commute)

text \<open>
  C6. \<open>generate_constexpr_lambda\<close> replaces each element of the vector by 5 times its
  previous value, in the arithmetic of \<^verbatim>\<open>int\<close>, and keeps the length; wherever 5 times the
  signed value fits an \<^verbatim>\<open>int\<close>, the new signed value is exactly that product. The vector
  \<open>[1, 2, 3]\<close> becomes \<open>[5, 10, 15]\<close>.
\<close>

theorem generate_constexpr_lambda_times_five:
  "fst (generate_constexpr_lambda vec) = map (\<lambda>x. x * 5) vec
   \<and> length (fst (generate_constexpr_lambda vec)) = length vec
   \<and> (\<forall>i < length vec. - (2 ^ 31) \<le> 5 * sint (vec ! i) \<and> 5 * sint (vec ! i) < 2 ^ 31
         \<longrightarrow> sint (fst (generate_constexpr_lambda vec) ! i) = 5 * sint (vec ! i))
   \<and> fst (generate_constexpr_lambda [1, 2, 3]) = [5, 10, 15]"
  by (simp add: generate_constexpr_lambda_vec multiplyByFive_def sint_times_five)

theorem generate_constexpr_lambda_times_five_witness:
  "fst (generate_constexpr_lambda [7, - 3]) = [35, - 15]
   \<and> sint (fst (generate_constexpr_lambda [7, - 3]) ! 1) = - 15"
  using generate_constexpr_lambda_times_five [of "[7, - 3]"] by simp

text \<open>
  C7. Transforming a vector twice gives what one transform with the multiplier 25 gives;
  \<open>[1, 2, 3]\<close> becomes \<open>[25, 50, 75]\<close>.
\<close>

theorem generate_constexpr_lambda_twice:
  "fst (generate_constexpr_lambda (fst (generate_constexpr_lambda vec)))
     = transform (\<lambda>x. x * 25) 0 (length vec) vec
   \<and> fst (generate_constexpr_lambda (fst (generate_constexpr_lambda [1, 2, 3]))) = [25, 50, 75]"
  by (simp add: generate_constexpr_lambda_vec multiplyByFive_def transform_map)

subsection \<open>Bindings, the conditional and the namespaces\<close>

text \<open>
  C8. The object of \<open>createObj\<close> has the members 5 and \<open>C\<close>, which \<open>bindings_example_2\<close>
  prints, and \<open>if_init\<close> writes \<open>Value was not 6\<close>, not \<open>Value was 6\<close>.
\<close>

theorem createObj_bindings:
  "memA createObj = 5 \<and> memB createObj = CHR ''C''
   \<and> bindings_example_2 = endl @ ''Class contains: '' @ endl @ ''5 C'' @ endl
   \<and> if_init = endl @ ''Value was not 6'' @ endl
   \<and> if_init \<noteq> endl @ ''Value was 6'' @ endl"
  by (simp add: createObj_def bindings_example_2_def if_init_def Let_def show_int32_def
      show_int_def show_nat.simps digit_char_def endl_def)

text \<open>
  C9. \<open>A::foo()\<close> returns \<open>I am an A foo!\<close> and \<open>A::B::foo()\<close> returns \<open>I am a B foo!\<close>.
  Neither reads or writes any state, so each is a constant, whatever was called
  before; \<open>printFoos\<close> prints the two in this order.
\<close>

theorem foo_results:
  "A_foo = ''I am an A foo!'' \<and> A_B_foo = ''I am a B foo!''
   \<and> printFoos = endl @ ''I am an A foo!'' @ endl @ endl @ ''I am a B foo!'' @ endl"
  by (simp add: A_foo_def A_B_foo_def printFoos_def)

subsection \<open>The maximum finder\<close>

lemma compare_values_nonempty:
  "vecA \<noteq> [] \<Longrightarrow> vecB \<noteq> [] \<Longrightarrow>
   compare_values lt shw vecA vecB =
     Inr (vecA, vecB,
       endl @ ''Max element of Vector A: '' @ shw (vecA ! max_element lt vecA) @ '' at element: ''
         @ show_int (int (max_element lt vecA)) @ endl
       @ endl @ ''Max element of Vector B: '' @ shw (vecB ! max_element lt vecB) @ '' at element: ''
         @ show_int (int (max_element lt vecB)) @ endl)"
  by (simp add: compare_values_def deref_def max_element_less Let_def)

text \<open>
  C10. Called on two non-empty vectors, \<open>compare_values\<close> returns, and leaves both as
  they were: the same elements in the same order.
\<close>

theorem compare_values_leaves_vectors:
  assumes "vecA \<noteq> []" and "vecB \<noteq> []"
  shows "\<exists>out. compare_values lt shw vecA vecB = Inr (vecA, vecB, out)"
  using assms by (simp add: compare_values_nonempty)

theorem compare_values_leaves_vectors_witness:
  "[3, 7, 2, 7, 1] \<noteq> ([] :: int32 list) \<and> [4, 4] \<noteq> ([] :: int32 list)
   \<and> (\<exists>out. compare_values int_less show_int32 [3, 7, 2, 7, 1] [4, 4] = Inr ([3, 7, 2, 7, 1], [4, 4], out))"
  using compare_values_leaves_vectors [of "[3, 7, 2, 7, 1] :: int32 list" "[4, 4]" int_less show_int32]
  by simp

lemma max_element_literal: "max_element int_less [3, 7, 2, 7, 1] = 1"
  by (simp add: max_element_def max_element_loop.simps int_less_def)

lemma show_literals: "show_int32 7 = ''7''" "show_int 1 = ''1''"
  by (simp_all add: show_int32_def show_int_def show_nat.simps digit_char_def)

text \<open>
  C3. For two non-empty vectors, of any lengths, \<open>compare_values\<close> prints for each the
  value and the zero-based position of its maximum, the first position that holds it.
  For \<open>[3, 7, 2, 7, 1]\<close> it prints the maximum 7 at the position 1.
\<close>

theorem compare_values_reports_first_max:
  assumes "vecA \<noteq> []" and "vecB \<noteq> []"
  shows "(\<exists>pa pb.
      compare_values (\<lambda>a b. key a < key b) shw vecA vecB =
        Inr (vecA, vecB,
          endl @ ''Max element of Vector A: '' @ shw (vecA ! pa) @ '' at element: ''
            @ show_int (int pa) @ endl
          @ endl @ ''Max element of Vector B: '' @ shw (vecB ! pb) @ '' at element: ''
            @ show_int (int pb) @ endl)
      \<and> is_first_max key vecA pa \<and> is_first_max key vecB pb)
    \<and> compare_values int_less show_int32 [3, 7, 2, 7, 1] [3, 7, 2, 7, 1] =
        Inr ([3, 7, 2, 7, 1], [3, 7, 2, 7, 1],
          endl @ ''Max element of Vector A: 7 at element: 1'' @ endl
          @ endl @ ''Max element of Vector B: 7 at element: 1'' @ endl)"
proof
  show "\<exists>pa pb.
      compare_values (\<lambda>a b. key a < key b) shw vecA vecB =
        Inr (vecA, vecB,
          endl @ ''Max element of Vector A: '' @ shw (vecA ! pa) @ '' at element: ''
            @ show_int (int pa) @ endl
          @ endl @ ''Max element of Vector B: '' @ shw (vecB ! pb) @ '' at element: ''
            @ show_int (int pb) @ endl)
      \<and> is_first_max key vecA pa \<and> is_first_max key vecB pb"
    using assms compare_values_nonempty [OF assms] max_element_first_max by blast
  show "compare_values int_less show_int32 [3, 7, 2, 7, 1] [3, 7, 2, 7, 1] =
        Inr ([3, 7, 2, 7, 1], [3, 7, 2, 7, 1],
          endl @ ''Max element of Vector A: 7 at element: 1'' @ endl
          @ endl @ ''Max element of Vector B: 7 at element: 1'' @ endl)"
    by (simp add: compare_values_nonempty max_element_literal show_literals)
qed

lemma is_first_max_literal: "is_first_max sint [3, 7, 2, 7, 1 :: int32] 1"
  by (simp add: is_first_max_def)

theorem compare_values_reports_first_max_witness:
  "[3, 7, 2, 7, 1] \<noteq> ([] :: int32 list) \<and> [2, 9] \<noteq> ([] :: int32 list)
   \<and> (\<exists>pa pb.
      compare_values (\<lambda>a b. sint a < sint b) show_int32 [3, 7, 2, 7, 1] [2, 9] =
        Inr ([3, 7, 2, 7, 1], [2, 9],
          endl @ ''Max element of Vector A: '' @ show_int32 ([3, 7, 2, 7, 1] ! pa) @ '' at element: ''
            @ show_int (int pa) @ endl
          @ endl @ ''Max element of Vector B: '' @ show_int32 ([2, 9] ! pb) @ '' at element: ''
            @ show_int (int pb) @ endl)
      \<and> pa = 1 \<and> is_first_max sint [2, 9 :: int32] pb)"
proof -
  have a: "[3, 7, 2, 7, 1] \<noteq> ([] :: int32 list)" and b: "[2, 9] \<noteq> ([] :: int32 list)"
    by simp_all
  from compare_values_reports_first_max [OF a b, of sint show_int32]
  obtain pa pb where
    cv: "compare_values (\<lambda>a b. sint a < sint b) show_int32 [3, 7, 2, 7, 1] [2, 9] =
        Inr ([3, 7, 2, 7, 1], [2, 9],
          endl @ ''Max element of Vector A: '' @ show_int32 ([3, 7, 2, 7, 1] ! pa) @ '' at element: ''
            @ show_int (int pa) @ endl
          @ endl @ ''Max element of Vector B: '' @ show_int32 ([2, 9] ! pb) @ '' at element: ''
            @ show_int (int pb) @ endl)"
    and fa: "is_first_max sint [3, 7, 2, 7, 1 :: int32] pa"
    and fb: "is_first_max sint [2, 9 :: int32] pb"
    by blast
  have p1: "pa = 1" using fa is_first_max_literal by (rule is_first_max_unique)
  show ?thesis
    apply (intro conjI exI)
        apply (rule a)
       apply (rule b)
      apply (rule cv)
     apply (rule p1)
    apply (rule fb)
    done
qed

subsection \<open>The output of a run\<close>

lemma digit_char_no_newline: "d < 10 \<Longrightarrow> digit_char d \<noteq> CHR 0x0A"
proof -
  assume "d < 10"
  then have "digit_char d \<in> set ''0123456789''"
    unfolding digit_char_def by (intro nth_mem) simp
  then show ?thesis by auto
qed

lemma show_nat_no_newline: "CHR 0x0A \<notin> set (show_nat n)"
proof (induction n rule: show_nat.induct)
  case (1 n)
  show ?case
  proof (cases "n < 10")
    case True
    then show ?thesis
      using digit_char_no_newline [of n] by (subst show_nat.simps) auto
  next
    case False
    have "n mod 10 < 10" by simp
    then have "digit_char (n mod 10) \<noteq> CHR 0x0A" by (rule digit_char_no_newline)
    then show ?thesis using False 1 by (subst show_nat.simps) auto
  qed
qed

lemma show_int_no_newline: "CHR 0x0A \<notin> set (show_int i)"
  by (simp add: show_int_def show_nat_no_newline)

lemma show_int32_no_newline: "CHR 0x0A \<notin> set (show_int32 x)"
  by (simp add: show_int32_def show_int_no_newline)

lemma print_vec_no_newline: "CHR 0x0A \<notin> set (print_vec show_int32 v)"
  by (induction v) (simp_all add: show_int32_no_newline)

lemma lines_of_nonempty: "lines_of cs \<noteq> []"
  by (induction cs) (simp_all split: list.splits)

lemma lines_of_newline: "lines_of (CHR 0x0A # cs) = [] # lines_of cs"
  by simp

lemma lines_of_char:
  "c \<noteq> CHR 0x0A \<Longrightarrow> lines_of (c # cs) = (c # hd (lines_of cs)) # tl (lines_of cs)"
  using lines_of_nonempty [of cs] by (cases "lines_of cs") simp_all

lemma lines_of_append:
  "CHR 0x0A \<notin> set a \<Longrightarrow> lines_of (a @ cs) = (a @ hd (lines_of cs)) # tl (lines_of cs)"
proof (induction a)
  case Nil
  then show ?case using lines_of_nonempty [of cs] by simp
next
  case (Cons c a)
  then have "c \<noteq> CHR 0x0A" and ih: "lines_of (a @ cs) = (a @ hd (lines_of cs)) # tl (lines_of cs)"
    by auto
  then have "lines_of (c # (a @ cs)) = (c # hd (lines_of (a @ cs))) # tl (lines_of (a @ cs))"
    by (intro lines_of_char)
  then show ?case by (simp add: ih del: lines_of.simps)
qed

lemma main_text:
  "\<exists>va vb. length va = 10 \<and> length vb = 10 \<and> main rnd s =
     Inr (endl @ ''Max element of Vector A: '' @ show_int32 (va ! max_element int_less va)
            @ '' at element: '' @ show_int (int (max_element int_less va)) @ endl
          @ endl @ ''Max element of Vector B: '' @ show_int32 (vb ! max_element int_less vb)
            @ '' at element: '' @ show_int (int (max_element int_less vb)) @ endl
          @ (endl @ ''Values in vector before transforming: '' @ endl @ print_vec show_int32 va
             @ endl @ ''Values in vector after transforming: '' @ endl
             @ print_vec show_int32 (map multiplyByFive va) @ endl)
          @ stringview_func
          @ endl @ show_int32 (sum_numbers 4 [6, 33, 7, 3, 4, 5]) @ endl
          @ bindings_example_2
          @ if_init
          @ snd (if_constexpr_func (Pointer ()))
          @ printFoos)"
proof -
  have g: "\<exists>v s'. generate_vector rnd 10 100 s = Inr (v, s') \<and> length v = nat (sint (10 :: int32))
      \<and> (\<forall>x \<in> set v. True)" for s
    by (rule generate_vector_succeeds) (use rand_mod_positive [of 100 rnd] in simp_all)
  obtain va s1 where a: "generate_vector rnd 10 100 s = Inr (va, s1)" and la: "length va = 10"
    using g [of s] by auto
  obtain vb s2 where b: "generate_vector rnd 10 100 s1 = Inr (vb, s2)" and lb: "length vb = 10"
    using g [of s1] by auto
  have ne: "va \<noteq> []" "vb \<noteq> []" using la lb by auto
  show ?thesis
    apply (rule exI [of _ va], rule exI [of _ vb])
    apply (simp add: la lb main_def a b compare_values_nonempty [OF ne]
        generate_constexpr_lambda_def transform_map Let_def)
    done
qed


lemma fixed_texts:
  "stringview_func = endl @ ''String View tester: '' @ endl @ endl @ ''Some words'' @ endl @ ''More words'' @ endl @ ''Another string!''"
  "show_int32 62 = ''62''"
  "bindings_example_2 = endl @ ''Class contains: '' @ endl @ ''5 C'' @ endl"
  "if_init = endl @ ''Value was not 6'' @ endl"
  "snd (if_constexpr_func (Pointer ())) = endl @ ''is a pointer!'' @ endl"
  "printFoos = endl @ ''I am an A foo!'' @ endl @ endl @ ''I am a B foo!'' @ endl"
  by code_simp+

lemma main_lines:
  "\<exists>a b c d out. main rnd s = Inr out \<and> lines_of out =
     [[], ''Max element of Vector A: '' @ a, [],
       ''Max element of Vector B: '' @ b, [],
       ''Values in vector before transforming: '', c,
       ''Values in vector after transforming: '', d,
       [], ''String View tester: '', [],
       ''Some words'', ''More words'', ''Another string!'', ''62'', [],
       ''Class contains: '', ''5 C'', [], ''Value was not 6'', [],
       ''is a pointer!'', [], ''I am an A foo!'', [], ''I am a B foo!'', []]"
proof -
  obtain va vb where m: "main rnd s =
     Inr (endl @ ''Max element of Vector A: '' @ show_int32 (va ! max_element int_less va)
            @ '' at element: '' @ show_int (int (max_element int_less va)) @ endl
          @ endl @ ''Max element of Vector B: '' @ show_int32 (vb ! max_element int_less vb)
            @ '' at element: '' @ show_int (int (max_element int_less vb)) @ endl
          @ (endl @ ''Values in vector before transforming: '' @ endl @ print_vec show_int32 va
             @ endl @ ''Values in vector after transforming: '' @ endl
             @ print_vec show_int32 (map multiplyByFive va) @ endl)
          @ stringview_func
          @ endl @ show_int32 (sum_numbers 4 [6, 33, 7, 3, 4, 5]) @ endl
          @ bindings_example_2
          @ if_init
          @ snd (if_constexpr_func (Pointer ()))
          @ printFoos)"
    using main_text [of rnd s] by blast
  let ?a = "show_int32 (va ! max_element int_less va)
            @ '' at element: '' @ show_int (int (max_element int_less va))"
  let ?b = "show_int32 (vb ! max_element int_less vb)
            @ '' at element: '' @ show_int (int (max_element int_less vb))"
  let ?c = "print_vec show_int32 va"
  let ?d = "print_vec show_int32 (map multiplyByFive va)"
  show ?thesis
    apply (rule exI [of _ ?a], rule exI [of _ ?b], rule exI [of _ ?c], rule exI [of _ ?d])
    apply (rule exI, rule conjI, rule m)
    apply (simp add: fixed_texts endl_def lines_of_append show_int32_no_newline
        show_int_no_newline print_vec_no_newline)
    done
qed

lemma length_rand_values: "length (rand_values rnd n s) = n"
  by (induction n arbitrary: s) simp_all

lemma rand_values_add:
  "rand_values rnd (m + n) s = rand_values rnd m s @ rand_values rnd n (rand_state rnd m s)"
  by (induction m arbitrary: s) simp_all

lemma rand_mod_value:
  assumes "0 < sint rangeVal"
  shows "rand_mod rnd rangeVal s =
    Inr (word_of_int (trunc_rem (sint (fst (rnd s))) (sint rangeVal)), snd (rnd s))"
proof -
  have "rangeVal \<noteq> 0" using assms by auto
  moreover have "sint rangeVal \<noteq> - 1" using assms by simp
  ultimately show ?thesis by (simp add: rand_mod_def int_rem_def split: prod.splits)
qed

lemma generate_rand_values:
  assumes "0 < sint rangeVal" and "final = length v" and "first \<le> final"
  shows "generate (rand_mod rnd rangeVal) first final v s =
    Inr (take first v
           @ map (\<lambda>r. word_of_int (trunc_rem (sint r) (sint rangeVal)))
               (rand_values rnd (final - first) s),
         rand_state rnd (final - first) s)"
  using assms
proof (induction "rand_mod rnd rangeVal" first final v s rule: generate.induct)
  case (1 first final v s)
  let ?f = "\<lambda>r. word_of_int (trunc_rem (sint r) (sint rangeVal)) :: int32"
  show ?case
  proof (cases "first < final")
    case True
    let ?x = "?f (fst (rnd s))"
    let ?s' = "snd (rnd s)"
    have g: "rand_mod rnd rangeVal s = Inr (?x, ?s')"
      using "1.prems"(1) by (rule rand_mod_value)
    have len: "first < length v" using True "1.prems"(2) by simp
    have tk: "take (Suc first) (v[first := ?x]) = take first v @ [?x]"
      using len by (simp add: take_Suc_conv_app_nth)
    have sc: "final - first = Suc (final - Suc first)" using True by simp
    have "generate (rand_mod rnd rangeVal) (Suc first) final (v[first := ?x]) ?s' =
        Inr (take (Suc first) (v[first := ?x]) @ map ?f (rand_values rnd (final - Suc first) ?s'),
             rand_state rnd (final - Suc first) ?s')"
      using "1.hyps" [OF True g refl] "1.prems" True by simp
    then show ?thesis
      using True g by (subst generate.simps) (simp add: tk sc)
  next
    case False
    then have "first = length v" using "1.prems" by simp
    then show ?thesis using "1.prems" by (subst generate.simps) simp
  qed
qed

lemma generate_vector_rand_values:
  assumes "0 \<le> sint sizeVal" and "0 < sint rangeVal"
  shows "generate_vector rnd sizeVal rangeVal s =
    Inr (map (\<lambda>r. word_of_int (trunc_rem (sint r) (sint rangeVal)))
           (rand_values rnd (nat (sint sizeVal)) s),
         rand_state rnd (nat (sint sizeVal)) s)"
  using assms generate_rand_values [OF assms(2), of "nat (sint sizeVal)" "replicate (nat (sint sizeVal)) 0" 0 rnd s]
  by (simp add: generate_vector_def vector_of_size_def)

lemma main_by_rand_values:
  "main rnd s =
     (case compare_values int_less show_int32
        (map (\<lambda>r. word_of_int (trunc_rem (sint r) 100)) (take 10 (rand_values rnd 20 s)))
        (map (\<lambda>r. word_of_int (trunc_rem (sint r) 100)) (drop 10 (rand_values rnd 20 s))) of
        Inl e \<Rightarrow> Inl e
      | Inr (testVectorA1, testVectorB1, out1) \<Rightarrow>
          Inr (out1
            @ snd (generate_constexpr_lambda testVectorA1)
            @ stringview_func
            @ endl @ show_int32 (sum_numbers 4 [6, 33, 7, 3, 4, 5]) @ endl
            @ bindings_example_2
            @ if_init
            @ snd (if_constexpr_func (Pointer ()))
            @ printFoos))"
proof -
  have gv: "generate_vector rnd 10 100 s' =
      Inr (map (\<lambda>r. word_of_int (trunc_rem (sint r) 100)) (rand_values rnd 10 s'),
           rand_state rnd 10 s')" for s'
    using generate_vector_rand_values [of 10 100 rnd s'] by simp
  have split: "rand_values rnd 20 s = rand_values rnd 10 s @ rand_values rnd 10 (rand_state rnd 10 s)"
    using rand_values_add [of rnd 10 10 s] by simp
  show ?thesis
    unfolding main_def gv split by (simp add: length_rand_values)
qed

text \<open>
  C2, as the code has it. The program sets no seed and reads nothing else that could
  vary: what it writes is determined by the first twenty values that \<^verbatim>\<open>rand()\<close> returns.
  Two runs in which \<^verbatim>\<open>rand()\<close> returns the same twenty values write the same text, the
  numeric values included, whatever the generators and their states. And whatever the
  generator returns, the text has the same 28 lines, all of them fixed literal text but
  four: the two maxima (after a fixed prefix) and the vector before and after the
  transform.
\<close>

theorem main_output_determined_by_rand:
  "(rand_values rnd1 20 s1 = rand_values rnd2 20 s2 \<longrightarrow> main rnd1 s1 = main rnd2 s2)
   \<and> (\<exists>a b c d out. main rnd s = Inr out \<and> lines_of out =
     [[], ''Max element of Vector A: '' @ a, [],
       ''Max element of Vector B: '' @ b, [],
       ''Values in vector before transforming: '', c,
       ''Values in vector after transforming: '', d,
       [], ''String View tester: '', [],
       ''Some words'', ''More words'', ''Another string!'', ''62'', [],
       ''Class contains: '', ''5 C'', [], ''Value was not 6'', [],
       ''is a pointer!'', [], ''I am an A foo!'', [], ''I am a B foo!'', []])"
proof (intro conjI impI)
  assume "rand_values rnd1 20 s1 = rand_values rnd2 20 s2"
  then show "main rnd1 s1 = main rnd2 s2"
    by (simp only: main_by_rand_values [of rnd1 s1] main_by_rand_values [of rnd2 s2])
next
  show "\<exists>a b c d out. main rnd s = Inr out \<and> lines_of out =
     [[], ''Max element of Vector A: '' @ a, [],
       ''Max element of Vector B: '' @ b, [],
       ''Values in vector before transforming: '', c,
       ''Values in vector after transforming: '', d,
       [], ''String View tester: '', [],
       ''Some words'', ''More words'', ''Another string!'', ''62'', [],
       ''Class contains: '', ''5 C'', [], ''Value was not 6'', [],
       ''is a pointer!'', [], ''I am an A foo!'', [], ''I am a B foo!'', []]"
    by (rule main_lines)
qed

lemma glibc_first_values:
  "rand_values glibc_rand 20 (glibc_srand 1) =
    [1804289383, 846930886, 1681692777, 1714636915, 1957747793, 424238335,
     719885386, 1649760492, 596516649, 1189641421, 1025202362, 1350490027,
     783368690, 1102520059, 2044897763, 1967513926, 1365180540, 1540383426,
     304089172, 1303455736]"
  by code_simp

lemma replay_values:
  "rand_values replay_rand 20
    [1804289383, 846930886, 1681692777, 1714636915, 1957747793, 424238335,
     719885386, 1649760492, 596516649, 1189641421, 1025202362, 1350490027,
     783368690, 1102520059, 2044897763, 1967513926, 1365180540, 1540383426,
     304089172, 1303455736] =
    [1804289383, 846930886, 1681692777, 1714636915, 1957747793, 424238335,
     719885386, 1649760492, 596516649, 1189641421, 1025202362, 1350490027,
     783368690, 1102520059, 2044897763, 1967513926, 1365180540, 1540383426,
     304089172, 1303455736]"
  by code_simp

theorem main_output_determined_by_rand_witness:
  "rand_values glibc_rand 20 (glibc_srand 1) =
     rand_values replay_rand 20
       [1804289383, 846930886, 1681692777, 1714636915, 1957747793, 424238335,
        719885386, 1649760492, 596516649, 1189641421, 1025202362, 1350490027,
        783368690, 1102520059, 2044897763, 1967513926, 1365180540, 1540383426,
        304089172, 1303455736]
   \<and> main glibc_rand (glibc_srand 1) =
     main replay_rand
       [1804289383, 846930886, 1681692777, 1714636915, 1957747793, 424238335,
        719885386, 1649760492, 596516649, 1189641421, 1025202362, 1350490027,
        783368690, 1102520059, 2044897763, 1967513926, 1365180540, 1540383426,
        304089172, 1303455736]"
proof -
  have h: "rand_values glibc_rand 20 (glibc_srand 1) =
     rand_values replay_rand 20
       [1804289383, 846930886, 1681692777, 1714636915, 1957747793, 424238335,
        719885386, 1649760492, 596516649, 1189641421, 1025202362, 1350490027,
        783368690, 1102520059, 2044897763, 1967513926, 1365180540, 1540383426,
        304089172, 1303455736]"
    by (simp only: glibc_first_values replay_values)
  from main_output_determined_by_rand [THEN conjunct1, THEN mp, OF h] h
  show ?thesis by (rule conjI [rotated])
qed

text \<open>
  The claim C2 as stated, that the values differ from run to run because no seed is
  set, fails on the GNU C library: its generator, left unseeded, starts from the table
  of the seed 1, and the program then writes the values below, in every run.
\<close>

lemma glibc_main:
  "map_sum id lines_of (main glibc_rand (glibc_srand 1)) =
     Inr [[], ''Max element of Vector A: 93 at element: 4'', [],
       ''Max element of Vector B: 90 at element: 2'', [],
       ''Values in vector before transforming: '',
       ''83 86 77 15 93 35 86 92 49 21 '',
       ''Values in vector after transforming: '',
       ''415 430 385 75 465 175 430 460 245 105 '', [], ''String View tester: '', [],
       ''Some words'', ''More words'', ''Another string!'', ''62'', [],
       ''Class contains: '', ''5 C'', [], ''Value was not 6'', [],
       ''is a pointer!'', [], ''I am an A foo!'', [], ''I am a B foo!'', []]"
  by code_simp

theorem unseeded_run_values_counterexample:
  "\<exists>out. main glibc_rand (glibc_srand 1) = Inr out \<and> lines_of out =
     [[], ''Max element of Vector A: 93 at element: 4'', [],
       ''Max element of Vector B: 90 at element: 2'', [],
       ''Values in vector before transforming: '',
       ''83 86 77 15 93 35 86 92 49 21 '',
       ''Values in vector after transforming: '',
       ''415 430 385 75 465 175 430 460 245 105 '', [], ''String View tester: '', [],
       ''Some words'', ''More words'', ''Another string!'', ''62'', [],
       ''Class contains: '', ''5 C'', [], ''Value was not 6'', [],
       ''is a pointer!'', [], ''I am an A foo!'', [], ''I am a B foo!'', []]"
  using glibc_main by (cases "main glibc_rand (glibc_srand 1)") simp_all

end
